theory Spec2Isabelle
  imports Complex_Main
begin

section \<open>Strings and numbers as the TypeScript code uses them\<close>

text \<open>
  JavaScript strings are modelled as \<^typ>\<open>string\<close>, restricted to code units below 256.
  Numbers that hold second counts are modelled as \<^typ>\<open>int\<close>, the value of the
  binary64 number; the increment and the decrement of the timer round as binary64
  arithmetic does (\<open>round64\<close> below).
\<close>

definition isWhiteSpace :: "char \<Rightarrow> bool" where
  \<comment> \<open>the white space and line terminators that \<open>String.prototype.trim\<close> strips,
      as far as they lie below 256: TAB, LF, VT, FF, CR, SP, NBSP\<close>
  "isWhiteSpace c =
     (c \<in> set [CHR 0x09, CHR 0x0A, CHR 0x0B, CHR 0x0C, CHR 0x0D, CHR 0x20, CHR 0xA0])"

definition trim :: "string \<Rightarrow> string" where
  "trim s = rev (dropWhile isWhiteSpace (rev (dropWhile isWhiteSpace s)))"

definition isDigit :: "char \<Rightarrow> bool" where
  \<comment> \<open>the regular-expression class \<open>\d\<close>\<close>
  "isDigit c = (c \<in> set ''0123456789'')"

definition digitVal :: "char \<Rightarrow> int" where
  "digitVal c = int (of_char c) - 48"

definition digitChar :: "nat \<Rightarrow> char" where
  \<comment> \<open>the character of a decimal digit \<open>d < 10\<close>\<close>
  "digitChar d = ''0123456789'' ! d"

definition parseInt10 :: "string \<Rightarrow> int" where
  \<comment> \<open>\<open>parseInt(x, 10)\<close> on a capture group of \<open>\d+\<close>: the decimal value. The sign,
      white-space and NaN paths of \<open>parseInt\<close> cannot be reached from such a group.\<close>
  "parseInt10 ds = foldl (\<lambda>a c. 10 * a + digitVal c) 0 ds"

fun digitsOf :: "nat \<Rightarrow> string" where
  "digitsOf n = (if n < 10 then [digitChar n] else digitsOf (n div 10) @ [digitChar (n mod 10)])"

declare digitsOf.simps [simp del]

definition toString :: "int \<Rightarrow> string" where
  \<comment> \<open>\<open>Number.prototype.toString\<close> on an integer\<close>
  "toString i = (if i < 0 then CHR ''-'' # digitsOf (nat (- i)) else digitsOf (nat i))"

definition padStart :: "nat \<Rightarrow> string \<Rightarrow> string \<Rightarrow> string" where
  \<comment> \<open>\<open>s.padStart(n, p)\<close>\<close>
  "padStart n p s =
     (if n \<le> length s \<or> p = [] then s
      else take (n - length s) (concat (replicate (n - length s) p)) @ s)"

definition js_rem :: "int \<Rightarrow> int \<Rightarrow> int" where
  \<comment> \<open>the operator \<open>%\<close>: the remainder takes the sign of the dividend\<close>
  "js_rem a b = sgn a * (\<bar>a\<bar> mod \<bar>b\<bar>)"

text \<open>
  A second count is a binary64 number whose value is an integer. Adding or subtracting 1
  gives the binary64 number nearest to the exact result, ties going to the even
  significand. Up to \<open>2 ^ 53\<close> in magnitude every integer is such a number and the
  result is exact; beyond, the numbers are the multiples of \<open>ulp\<close>, the spacing at that
  magnitude. (Magnitudes stay far below \<open>2 ^ 1024\<close>, where binary64 ends.)
\<close>

function ulp :: "nat \<Rightarrow> nat" where
  "ulp n = (if n < 2 ^ 53 then 1 else 2 * ulp (n div 2))"
  by pat_completeness auto
termination
  by (relation "measure id") auto

declare ulp.simps [simp del]

definition round_nat :: "nat \<Rightarrow> nat" where
  \<comment> \<open>round to nearest, ties to even, on the multiples of \<open>ulp n\<close>\<close>
  "round_nat n =
     (let q = ulp n; r = n mod q; base = n - r in
      if 2 * r < q then base
      else if q < 2 * r then base + q
      else if even (base div q) then base else base + q)"

definition round64 :: "int \<Rightarrow> int" where
  \<comment> \<open>the binary64 number nearest to an integer\<close>
  "round64 x = sgn x * int (round_nat (nat \<bar>x\<bar>))"

definition pad2 :: "int \<Rightarrow> string" where
  \<comment> \<open>\<open>x.toString().padStart(2, "0")\<close>\<close>
  "pad2 x = padStart 2 ''0'' (toString x)"

section \<open>TimeCodec: main.ts\<close>

subsection \<open>The text written by \<open>updateDisplay\<close>\<close>

definition updateDisplay_text :: "int \<Rightarrow> string" where
  \<comment> \<open>the value \<open>updateDisplay\<close> assigns to \<open>timerDisplay.textContent\<close>
      when \<open>state.currentTime\<close> is the argument\<close>
  "updateDisplay_text currentTime =
     (let hours = currentTime div 3600;
          minutes = js_rem currentTime 3600 div 60;
          seconds = js_rem currentTime 60
      in if hours > 0 then pad2 hours @ '':'' @ pad2 minutes @ '':'' @ pad2 seconds
         else pad2 minutes @ '':'' @ pad2 seconds)"

subsection \<open>The two patterns of \<open>parseTimeInput\<close>\<close>

fun match_HMS :: "string \<Rightarrow> (string \<times> string \<times> string) option" where
  \<comment> \<open>\<open>/^(\d{1,2}):(\d{2}):(\d{2})$/\<close>: the three capture groups\<close>
  "match_HMS [h1, h2, c1, m1, m2, c2, s1, s2] =
     (if isDigit h1 \<and> isDigit h2 \<and> c1 = CHR '':'' \<and> isDigit m1 \<and> isDigit m2 \<and>
         c2 = CHR '':'' \<and> isDigit s1 \<and> isDigit s2
      then Some ([h1, h2], [m1, m2], [s1, s2]) else None)"
| "match_HMS [h1, c1, m1, m2, c2, s1, s2] =
     (if isDigit h1 \<and> c1 = CHR '':'' \<and> isDigit m1 \<and> isDigit m2 \<and>
         c2 = CHR '':'' \<and> isDigit s1 \<and> isDigit s2
      then Some ([h1], [m1, m2], [s1, s2]) else None)"
| "match_HMS _ = None"

fun match_MS :: "string \<Rightarrow> (string \<times> string) option" where
  \<comment> \<open>\<open>/^(\d{1,2}):(\d{2})$/\<close>: the two capture groups\<close>
  "match_MS [m1, m2, c1, s1, s2] =
     (if isDigit m1 \<and> isDigit m2 \<and> c1 = CHR '':'' \<and> isDigit s1 \<and> isDigit s2
      then Some ([m1, m2], [s1, s2]) else None)"
| "match_MS [m1, c1, s1, s2] =
     (if isDigit m1 \<and> c1 = CHR '':'' \<and> isDigit s1 \<and> isDigit s2
      then Some ([m1], [s1, s2]) else None)"
| "match_MS _ = None"

subsection \<open>\<open>parseTimeInput\<close>\<close>

text \<open>
  The function returns \<open>null\<close> on every failure and logs which check failed. The model
  keeps the check as the error value: \<open>OutOfRange\<close> for "... must be less than 60" and
  for "Time values cannot be negative", \<open>ZeroDuration\<close> for "Total time cannot be zero",
  \<open>InvalidFormat\<close> for "Invalid time format ...".
\<close>

datatype parse_error = InvalidFormat | OutOfRange | ZeroDuration

definition parseTimeInput :: "string \<Rightarrow> parse_error + int" where
  "parseTimeInput input =
     (let trimmed = trim input in
      case match_HMS trimmed of
        Some (g1, g2, g3) \<Rightarrow>
          (let hours = parseInt10 g1; minutes = parseInt10 g2; seconds = parseInt10 g3 in
           if minutes \<ge> 60 \<or> seconds \<ge> 60 then Inl OutOfRange
           else if hours < 0 \<or> minutes < 0 \<or> seconds < 0 then Inl OutOfRange
           else let totalSeconds = hours * 3600 + minutes * 60 + seconds in
                if totalSeconds = 0 then Inl ZeroDuration else Inr totalSeconds)
      | None \<Rightarrow>
          (case match_MS trimmed of
             Some (g1, g2) \<Rightarrow>
               (let minutes = parseInt10 g1; seconds = parseInt10 g2 in
                if seconds \<ge> 60 then Inl OutOfRange
                else if minutes < 0 \<or> seconds < 0 then Inl OutOfRange
                else let totalSeconds = minutes * 60 + seconds in
                     if totalSeconds = 0 then Inl ZeroDuration else Inr totalSeconds)
           | None \<Rightarrow> Inl InvalidFormat))"

definition parseTimeInput_value :: "string \<Rightarrow> int option" where
  \<comment> \<open>what the caller sees: a number, or \<open>null\<close>\<close>
  "parseTimeInput_value input = (case parseTimeInput input of Inl e \<Rightarrow> None | Inr n \<Rightarrow> Some n)"

section \<open>TimerEngine: main.ts\<close>

datatype TimerMode = COUNTDOWN | STOPWATCH

text \<open>
  The module state: the object \<open>state\<close>, the variable \<open>intervalId\<close> (only whether it
  holds a live interval handle matters: \<open>startTimer\<close> sets one only when the timer is
  not running, so no second interval is ever live), and two observable effects, the
  number of calls of \<open>playNotificationSound\<close> and the class \<open>timer-complete\<close> of the
  container.
\<close>

record TimerState =
  mode :: TimerMode
  isRunning :: bool
  currentTime :: int
  totalTime :: int
  isEditMode :: bool
  intervalActive :: bool
  notifications :: nat
  timerComplete :: bool

definition state0 :: TimerState where
  \<comment> \<open>the initial value of \<open>state\<close>, with \<open>intervalId = null\<close>\<close>
  "state0 = \<lparr> mode = COUNTDOWN, isRunning = False, currentTime = 180, totalTime = 180,
              isEditMode = False, intervalActive = False, notifications = 0,
              timerComplete = False \<rparr>"

definition pauseTimer :: "TimerState \<Rightarrow> TimerState" where
  "pauseTimer s =
     (if \<not> isRunning s then s
      else s\<lparr> isRunning := False, intervalActive := False \<rparr>)"

definition stopTimer :: "TimerState \<Rightarrow> TimerState" where
  "stopTimer s = pauseTimer s"

definition startTimer :: "TimerState \<Rightarrow> TimerState" where
  "startTimer s =
     (if isRunning s then s
      else s\<lparr> isRunning := True, intervalActive := True \<rparr>)"

definition toggleTimer :: "TimerState \<Rightarrow> TimerState" where
  "toggleTimer s = (if isRunning s then pauseTimer s else startTimer s)"

definition onTimerComplete :: "TimerState \<Rightarrow> TimerState" where
  "onTimerComplete s =
     (let s1 = stopTimer s;
          s2 = s1\<lparr> notifications := notifications s1 + 1 \<rparr>
      in s2\<lparr> timerComplete := True \<rparr>)"

definition completeTimeout :: "TimerState \<Rightarrow> TimerState" where
  \<comment> \<open>the callback that \<open>onTimerComplete\<close> schedules with \<open>setTimeout\<close>\<close>
  "completeTimeout s = s\<lparr> timerComplete := False \<rparr>"

definition intervalCallback :: "TimerState \<Rightarrow> TimerState" where
  \<comment> \<open>the function \<open>startTimer\<close> hands to \<open>setInterval\<close>\<close>
  "intervalCallback s =
     (if mode s = COUNTDOWN then
        (let s1 = s\<lparr> currentTime := max 0 (round64 (currentTime s - 1)) \<rparr>
         in if currentTime s1 = 0 then onTimerComplete s1 else s1)
      else s\<lparr> currentTime := round64 (currentTime s + 1) \<rparr>)"

definition tick :: "TimerState \<Rightarrow> TimerState" where
  \<comment> \<open>one period of the interval: the callback runs only while the handle is live\<close>
  "tick s = (if intervalActive s then intervalCallback s else s)"

definition resetTimer :: "TimerState \<Rightarrow> TimerState" where
  "resetTimer s =
     (let s1 = stopTimer s;
          s2 = s1\<lparr> timerComplete := False \<rparr>
      in s2\<lparr> currentTime := (if mode s2 = COUNTDOWN then totalTime s2 else 0) \<rparr>)"

definition enterEditMode_value :: "TimerState \<Rightarrow> string" where
  \<comment> \<open>the text \<open>enterEditMode\<close> puts into the new input element\<close>
  "enterEditMode_value s =
     (let hours = currentTime s div 3600;
          minutes = js_rem (currentTime s) 3600 div 60;
          seconds = js_rem (currentTime s) 60
      in pad2 hours @ '':'' @ pad2 minutes @ '':'' @ pad2 seconds)"

definition enterEditMode :: "TimerState \<Rightarrow> TimerState" where
  "enterEditMode s =
     (let s1 = (if isRunning s then pauseTimer s else s)
      in s1\<lparr> isEditMode := True \<rparr>)"

definition exitEditMode :: "bool \<Rightarrow> string option \<Rightarrow> TimerState \<Rightarrow> TimerState" where
  \<comment> \<open>the second argument is the value of the element \<open>#time-input\<close>, \<open>None\<close> when
      \<open>getElementById\<close> finds none; it is read only when \<open>save\<close> holds\<close>
  "exitEditMode save input s =
     (let s1 = (case input of
                  Some inputValue \<Rightarrow>
                    if save then
                      (case parseTimeInput_value inputValue of
                         Some parsedTime \<Rightarrow> s\<lparr> currentTime := parsedTime, totalTime := parsedTime \<rparr>
                       | None \<Rightarrow> s)
                    else s
                | None \<Rightarrow> s)
      in s1\<lparr> isEditMode := False \<rparr>)"

definition toggleMode :: "TimerState \<Rightarrow> TimerState" where
  "toggleMode s =
     (let s1 = (if isEditMode s then exitEditMode False None s else s);
          s2 = stopTimer s1;
          s3 = s2\<lparr> mode := (if mode s2 = COUNTDOWN then STOPWATCH else COUNTDOWN) \<rparr>
      in s3\<lparr> currentTime := (if mode s3 = COUNTDOWN then totalTime s3 else 0) \<rparr>)"

definition setTime :: "int \<Rightarrow> TimerState \<Rightarrow> TimerState" where
  "setTime seconds s =
     (let s1 = (if isEditMode s then exitEditMode False None s else s);
          s2 = stopTimer s1
      in s2\<lparr> currentTime := seconds, totalTime := seconds \<rparr>)"

text \<open>
  The handlers that the listeners of main.ts attach, as one event type, on the page: the
  module state and the number of \<open>#time-input\<close> elements in the document.
  \<open>enterEditMode\<close> inserts such an element and \<open>exitEditMode\<close> removes the first one,
  if there is one. \<open>CommitEdit text\<close> is the Enter key in such an element while the first
  of them holds \<open>text\<close>, and \<open>CancelEdit\<close> the Escape key; their listeners sit on the
  element, so neither can happen without one.
\<close>

record Page =
  timer :: TimerState
  timeInputs :: nat

definition page0 :: Page where
  "page0 = \<lparr> timer = state0, timeInputs = 0 \<rparr>"

datatype event =
    Start | Pause | Toggle | Reset | Tick | ToggleMode | SetTime int
  | EnterEdit | CommitEdit string | CancelEdit | CompleteTimeout

fun apply_event :: "event \<Rightarrow> Page \<Rightarrow> Page" where
  "apply_event Start p = p\<lparr> timer := startTimer (timer p) \<rparr>"
| "apply_event Pause p = p\<lparr> timer := pauseTimer (timer p) \<rparr>"
| "apply_event Toggle p = p\<lparr> timer := toggleTimer (timer p) \<rparr>"
| "apply_event Reset p = p\<lparr> timer := resetTimer (timer p) \<rparr>"
| "apply_event Tick p = p\<lparr> timer := tick (timer p) \<rparr>"
| "apply_event ToggleMode p =
     \<lparr> timer = toggleMode (timer p),
       timeInputs = (if isEditMode (timer p) then timeInputs p - 1 else timeInputs p) \<rparr>"
| "apply_event (SetTime n) p =
     \<lparr> timer = setTime n (timer p),
       timeInputs = (if isEditMode (timer p) then timeInputs p - 1 else timeInputs p) \<rparr>"
| "apply_event EnterEdit p =
     \<lparr> timer = enterEditMode (timer p), timeInputs = timeInputs p + 1 \<rparr>"
| "apply_event (CommitEdit text) p =
     (if timeInputs p = 0 then p
      else \<lparr> timer = exitEditMode True (Some text) (timer p), timeInputs = timeInputs p - 1 \<rparr>)"
| "apply_event CancelEdit p =
     (if timeInputs p = 0 then p
      else \<lparr> timer = exitEditMode False None (timer p), timeInputs = timeInputs p - 1 \<rparr>)"
| "apply_event CompleteTimeout p = p\<lparr> timer := completeTimeout (timer p) \<rparr>"

fun run :: "event list \<Rightarrow> Page \<Rightarrow> Page" where
  "run [] p = p"
| "run (e # es) p = run es (apply_event e p)"

fun valid_arg :: "event \<Rightarrow> bool" where
  \<comment> \<open>the argument of a \<open>setTime\<close> is a binary64 number above 0\<close>
  "valid_arg (SetTime n) = (0 < n \<and> round64 n = n)"
| "valid_arg _ = True"

definition countdown_inv :: "TimerState \<Rightarrow> bool" where
  "countdown_inv s = (mode s = COUNTDOWN \<longrightarrow> 0 \<le> currentTime s \<and> currentTime s \<le> totalTime s)"

definition times_wf :: "TimerState \<Rightarrow> bool" where
  \<comment> \<open>the two counts are not negative, and the target is a binary64 number\<close>
  "times_wf s = (0 \<le> currentTime s \<and> 0 \<le> totalTime s \<and> round64 (totalTime s) = totalTime s)"

section \<open>ThemeSelector: the dynamic colour of main.ts\<close>

text \<open>
  A progress value is a binary64 number; the model takes its exact value as a rational.
  Comparison of two binary64 numbers is exact, so each literal of the source stands for
  the exact value of the binary64 number nearest to it.
\<close>

definition lit_0_9 :: rat where "lit_0_9 = 8106479329266893 / 9007199254740992"
definition lit_0_8 :: rat where "lit_0_8 = 3602879701896397 / 4503599627370496"
definition lit_0_7 :: rat where "lit_0_7 = 3152519739159347 / 4503599627370496"
definition lit_0_6 :: rat where "lit_0_6 = 5404319552844595 / 9007199254740992"
definition lit_0_5 :: rat where "lit_0_5 = 1 / 2"
definition lit_0_4 :: rat where "lit_0_4 = 3602879701896397 / 9007199254740992"
definition lit_0_3 :: rat where "lit_0_3 = 5404319552844595 / 18014398509481984"
definition lit_0_2 :: rat where "lit_0_2 = 3602879701896397 / 18014398509481984"
definition lit_0_1 :: rat where "lit_0_1 = 3602879701896397 / 36028797018963968"
definition lit_0_95 :: rat where "lit_0_95 = 4278419646001971 / 4503599627370496"
definition lit_0_85 :: rat where "lit_0_85 = 7656119366529843 / 9007199254740992"
definition lit_0_05 :: rat where "lit_0_05 = 3602879701896397 / 72057594037927936"

definition dynamicColorFor :: "rat \<Rightarrow> string" where
  \<comment> \<open>the chain of comparisons in \<open>updateDynamicColor\<close>\<close>
  "dynamicColorFor progress =
     (if progress > lit_0_9 then ''linear-gradient(90deg, #065f46 0%, #10b981 100%)''
      else if progress > lit_0_8 then ''linear-gradient(90deg, #16a34a 0%, #4ade80 100%)''
      else if progress > lit_0_7 then ''linear-gradient(90deg, #22c55e 0%, #86efac 100%)''
      else if progress > lit_0_6 then ''linear-gradient(90deg, #65a30d 0%, #a3e635 100%)''
      else if progress > lit_0_5 then ''linear-gradient(90deg, #ca8a04 0%, #fbbf24 100%)''
      else if progress > lit_0_4 then ''linear-gradient(90deg, #ea580c 0%, #fb923c 100%)''
      else if progress > lit_0_3 then ''linear-gradient(90deg, #dc2626 0%, #f97316 100%)''
      else if progress > lit_0_2 then ''linear-gradient(90deg, #b91c1c 0%, #ef4444 100%)''
      else if progress > lit_0_1 then ''linear-gradient(90deg, #991b1b 0%, #dc2626 100%)''
      else ''linear-gradient(90deg, #7f1d1d 0%, #b91c1c 100%)'')"

definition updateDynamicColor :: "string option \<Rightarrow> rat \<Rightarrow> string option" where
  \<comment> \<open>the first argument is \<open>settings?.theme\<close>; the result is the new value of the
      property \<open>--bar-color\<close>, \<open>None\<close> when the property is left alone\<close>
  "updateDynamicColor theme progress =
     (if theme = Some ''dynamic'' then Some (dynamicColorFor progress) else None)"

definition band_gradients :: "string list" where
  \<comment> \<open>the ten gradients of \<open>updateDynamicColor\<close>, in the order of the source\<close>
  "band_gradients =
     [''linear-gradient(90deg, #065f46 0%, #10b981 100%)'',
      ''linear-gradient(90deg, #16a34a 0%, #4ade80 100%)'',
      ''linear-gradient(90deg, #22c55e 0%, #86efac 100%)'',
      ''linear-gradient(90deg, #65a30d 0%, #a3e635 100%)'',
      ''linear-gradient(90deg, #ca8a04 0%, #fbbf24 100%)'',
      ''linear-gradient(90deg, #ea580c 0%, #fb923c 100%)'',
      ''linear-gradient(90deg, #dc2626 0%, #f97316 100%)'',
      ''linear-gradient(90deg, #b91c1c 0%, #ef4444 100%)'',
      ''linear-gradient(90deg, #991b1b 0%, #dc2626 100%)'',
      ''linear-gradient(90deg, #7f1d1d 0%, #b91c1c 100%)'']"

section \<open>PresetStore: settings.ts\<close>

record PresetTime =
  seconds :: int
  label :: string

record Settings =
  presets :: "PresetTime list"
  theme :: "string option"
  barColor :: "string option"
  backgroundColor :: "string option"
  textColor :: "string option"
  startPauseKey :: "string option"
  resetKey :: "string option"

text \<open>
  The state of the settings window: the module variable \<open>presets\<close> and the value the
  store holds under the key \<open>settings\<close> (\<open>None\<close> when the key is absent).
\<close>

record SettingsWindow =
  presets_var :: "PresetTime list"
  store :: "Settings option"

definition DEFAULT_PRESETS :: "PresetTime list" where
  "DEFAULT_PRESETS =
     [\<lparr> seconds = 180, label = ''3 minutes'' \<rparr>,
      \<lparr> seconds = 300, label = ''5 minutes'' \<rparr>,
      \<lparr> seconds = 1500, label = ''25 minutes (Pomodoro)'' \<rparr>]"

definition formatSecondsToHHMMSS :: "int \<Rightarrow> string" where
  "formatSecondsToHHMMSS totalSeconds =
     (let hours = totalSeconds div 3600;
          minutes = js_rem totalSeconds 3600 div 60;
          secs = js_rem totalSeconds 60
      in pad2 hours @ '':'' @ pad2 minutes @ '':'' @ pad2 secs)"

definition parseHHMMSS :: "string \<Rightarrow> int option" where
  "parseHHMMSS input =
     (let trimmed = trim input in
      if trimmed = [] then None
      else case match_HMS trimmed of
        None \<Rightarrow> None
      | Some (g1, g2, g3) \<Rightarrow>
          (let hours = parseInt10 g1; minutes = parseInt10 g2; secs = parseInt10 g3 in
           if minutes \<ge> 60 \<or> secs \<ge> 60 \<or> hours < 0 \<or> minutes < 0 \<or> secs < 0 then None
           else let totalSeconds = hours * 3600 + minutes * 60 + secs in
                if totalSeconds = 0 then None else Some totalSeconds))"



definition addPreset :: "SettingsWindow \<Rightarrow> SettingsWindow" where
  "addPreset w = w\<lparr> presets_var := presets_var w @ [\<lparr> seconds = 600, label = ''10 min'' \<rparr>] \<rparr>"

text \<open>
  \<open>deletePreset\<close> ends in one of four ways: the alert "You must have at least one
  preset!" (\<open>LastPresetError\<close>), the TypeError of reading \<open>presets[index].label\<close> at an
  index that holds no element, a declined \<open>confirm\<close> dialog, or the removal. The answer
  of the dialog is an argument.
\<close>

datatype delete_result = LastPresetError | TypeError | Declined | Removed

definition deletePreset :: "int \<Rightarrow> bool \<Rightarrow> SettingsWindow \<Rightarrow> delete_result \<times> SettingsWindow" where
  "deletePreset index confirmed w =
     (if length (presets_var w) = 1 then (LastPresetError, w)
      else if index < 0 \<or> int (length (presets_var w)) \<le> index then (TypeError, w)
      else if confirmed
        then (Removed,
              w\<lparr> presets_var := take (nat index) (presets_var w) @ drop (nat index + 1) (presets_var w) \<rparr>)
        else (Declined, w))"






section \<open>Rounding to binary64\<close>

lemma ulp_small: "n < 2 ^ 53 \<Longrightarrow> ulp n = 1"
  by (simp add: ulp.simps)

lemma ulp_pos: "0 < ulp n"
proof (induction n rule: ulp.induct)
  case (1 n)
  then show ?case by (simp add: ulp.simps [of n])
qed

lemma ulp_dvd_mono: "m \<le> n \<Longrightarrow> ulp m dvd ulp n"
proof (induction n arbitrary: m rule: ulp.induct)
  case (1 n)
  show ?case
  proof (cases "n < 2 ^ 53")
    case True
    then show ?thesis using 1(2) by (simp add: ulp_small)
  next
    case False
    show ?thesis
    proof (cases "m < 2 ^ 53")
      case True
      then show ?thesis by (simp add: ulp_small)
    next
      case mf: False
      have "m div 2 \<le> n div 2" using 1(2) by (simp add: div_le_mono)
      then have "ulp (m div 2) dvd ulp (n div 2)" using 1(1) [OF False] by simp
      then show ?thesis using False mf by (simp add: ulp.simps [of n] ulp.simps [of m])
    qed
  qed
qed

lemma round_nat_small: "n \<le> 2 ^ 53 \<Longrightarrow> round_nat n = n"
proof (cases "n < 2 ^ 53")
  case True
  then show ?thesis by (simp add: round_nat_def ulp_small)
next
  case False
  assume "n \<le> 2 ^ 53"
  with False have n: "n = 2 ^ 53" by simp
  have "ulp n = 2" unfolding n by (simp add: ulp.simps)
  then show ?thesis unfolding n by (simp add: round_nat_def)
qed

lemma round_nat_next: "round_nat (2 ^ 53 + 1) = 2 ^ 53"
proof -
  have "ulp (2 ^ 53 + 1) = 2" by (simp add: ulp.simps)
  then show ?thesis by (simp add: round_nat_def)
qed

lemma round64_small: "\<bar>x\<bar> \<le> 2 ^ 53 \<Longrightarrow> round64 x = x"
proof -
  assume a: "\<bar>x\<bar> \<le> 2 ^ 53"
  then have "nat \<bar>x\<bar> \<le> 2 ^ 53" by simp
  then have "round_nat (nat \<bar>x\<bar>) = nat \<bar>x\<bar>" by (rule round_nat_small)
  then show ?thesis by (simp add: round64_def sgn_if)
qed

lemma round64_next: "round64 (2 ^ 53 + 1) = 2 ^ 53"
proof -
  have "nat \<bar>2 ^ 53 + 1 :: int\<bar> = 2 ^ 53 + 1" by simp
  then show ?thesis using round_nat_next by (simp add: round64_def)
qed

lemma round64_nonneg: "0 \<le> x \<Longrightarrow> 0 \<le> round64 x"
  by (simp add: round64_def sgn_if)

lemma round_nat_fix_dvd:
  assumes "round_nat t = t"
  shows "ulp t dvd t"
proof -
  let ?q = "ulp t"
  let ?r = "t mod ?q"
  have q: "0 < ?q" by (rule ulp_pos)
  have r: "?r < ?q" using q by simp
  have "round_nat t = t - ?r \<or> round_nat t = t - ?r + ?q"
    by (simp add: round_nat_def Let_def)
  moreover have "?r \<le> t" by simp
  ultimately have "?r = 0" using assms r by arith
  then show ?thesis by (simp add: dvd_eq_mod_eq_0)
qed

lemma round_nat_le_fix:
  assumes "n \<le> t" "round_nat t = t"
  shows "round_nat n \<le> t"
proof -
  let ?q = "ulp n"
  let ?r = "n mod ?q"
  have q: "0 < ?q" by (rule ulp_pos)
  have d: "?q dvd t" using ulp_dvd_mono [OF assms(1)] round_nat_fix_dvd [OF assms(2)]
    by (rule dvd_trans)
  show ?thesis
  proof (cases "?r = 0")
    case True
    then have "round_nat n = n" using q by (simp add: round_nat_def Let_def)
    then show ?thesis using assms by simp
  next
    case False
    obtain k where k: "t = ?q * k" using d by (auto simp add: dvd_def)
    have b: "n - ?r = ?q * (n div ?q)" by (simp add: minus_mod_eq_mult_div)
    have "n div ?q < k"
    proof (rule ccontr)
      assume "\<not> n div ?q < k"
      then have "k \<le> n div ?q" by simp
      then have "?q * k \<le> ?q * (n div ?q)" by simp
      then have "t \<le> n - ?r" using k b by simp
      moreover have "?r \<le> n" by simp
      ultimately show False using assms(1) False by arith
    qed
    then have "n div ?q + 1 \<le> k" by simp
    then have "?q * (n div ?q + 1) \<le> ?q * k" by (simp only: mult_le_mono2)
    then have u: "n - ?r + ?q \<le> t" using k b by (simp add: algebra_simps)
    have "round_nat n = n - ?r \<or> round_nat n = n - ?r + ?q"
      by (simp add: round_nat_def Let_def)
    then show ?thesis using u by auto
  qed
qed

lemma round64_pred_le:
  assumes "0 \<le> c" "c \<le> t" "round64 t = t"
  shows "max 0 (round64 (c - 1)) \<le> t"
proof (cases "c = 0")
  case True
  then show ?thesis using assms by (simp add: round64_small)
next
  case False
  then have c: "0 \<le> c - 1" using assms by simp
  have t: "0 < t" using False assms by simp
  have "int (round_nat (nat t)) = t" using assms(3) t by (simp add: round64_def)
  then have ft: "round_nat (nat t) = nat t" by simp
  have "nat (c - 1) \<le> nat t" using assms by simp
  then have "round_nat (nat (c - 1)) \<le> nat t" using ft by (rule round_nat_le_fix)
  then have "int (round_nat (nat (c - 1))) \<le> t" using t by simp
  moreover have "round64 (c - 1) = (if c - 1 = 0 then 0 else int (round_nat (nat (c - 1))))"
    using c by (simp add: round64_def sgn_if)
  ultimately show ?thesis using t by simp
qed

section \<open>Digits\<close>

lemma lt10_cases: "d < (10::nat) \<Longrightarrow> d \<in> {0,1,2,3,4,5,6,7,8,9}"
  by auto

lemma digitVal_digitChar: "d < 10 \<Longrightarrow> digitVal (digitChar d) = int d"
  by (drule lt10_cases) (auto simp add: digitVal_def digitChar_def)

lemma isDigit_digitChar: "d < 10 \<Longrightarrow> isDigit (digitChar d)"
  by (drule lt10_cases) (auto simp add: isDigit_def digitChar_def)

lemma not_ws_digitChar: "d < 10 \<Longrightarrow> \<not> isWhiteSpace (digitChar d)"
  by (drule lt10_cases) (auto simp add: isWhiteSpace_def digitChar_def)

lemma digitChar_not_colon: "d < 10 \<Longrightarrow> digitChar d \<noteq> CHR '':''"
  by (drule lt10_cases) (auto simp add: digitChar_def)

lemma pad2_two_digits:
  assumes "0 \<le> x" "x < 100"
  shows "pad2 x = [digitChar (nat x div 10), digitChar (nat x mod 10)]"
proof (cases "x < 10")
  case True
  then have "digitsOf (nat x) = [digitChar (nat x)]"
    using assms by (simp add: digitsOf.simps)
  moreover have "nat x div 10 = 0" "nat x mod 10 = nat x" using True assms by auto
  moreover have "digitChar 0 = CHR ''0''" by (simp add: digitChar_def)
  ultimately show ?thesis using assms by (simp add: pad2_def padStart_def toString_def)
next
  case False
  then have "nat x div 10 < 10" using assms by auto
  then have "digitsOf (nat x) = [digitChar (nat x div 10), digitChar (nat x mod 10)]"
    using False assms by (simp add: digitsOf.simps [of "nat x"] digitsOf.simps [of "nat x div 10"])
  then show ?thesis using assms by (simp add: pad2_def padStart_def toString_def)
qed

lemma parseInt10_two:
  assumes "a < 10" "b < 10"
  shows "parseInt10 [digitChar a, digitChar b] = int (10 * a + b)"
  using assms by (simp add: parseInt10_def digitVal_digitChar)

lemma trim_digit_ends:
  assumes "a < 10" "b < 10"
  shows "trim (digitChar a # xs @ [digitChar b]) = digitChar a # xs @ [digitChar b]"
  using assms by (simp add: trim_def not_ws_digitChar)

lemma parse_MS_digits:
  assumes "a < 10" "b < 10" "c < 6" "d < 10"
  shows "parseTimeInput [digitChar a, digitChar b, CHR '':'', digitChar c, digitChar d] =
         (if a = 0 \<and> b = 0 \<and> c = 0 \<and> d = 0 then Inl ZeroDuration
          else Inr (int ((10 * a + b) * 60 + (10 * c + d))))"
proof -
  have c10: "c < 10" using assms by simp
  have t: "trim [digitChar a, digitChar b, CHR '':'', digitChar c, digitChar d]
           = [digitChar a, digitChar b, CHR '':'', digitChar c, digitChar d]"
    using trim_digit_ends [OF assms(1) assms(4), of "[digitChar b, CHR '':'', digitChar c]"]
    by simp
  show ?thesis
    unfolding parseTimeInput_def t
    using assms c10
    by (simp add: isDigit_digitChar parseInt10_two Let_def)
qed

lemma parse_HMS_digits:
  assumes "a < 10" "b < 10" "c < 6" "d < 10" "e < 6" "f < 10"
  shows "parseTimeInput [digitChar a, digitChar b, CHR '':'', digitChar c, digitChar d,
                         CHR '':'', digitChar e, digitChar f] =
         (if a = 0 \<and> b = 0 \<and> c = 0 \<and> d = 0 \<and> e = 0 \<and> f = 0 then Inl ZeroDuration
          else Inr (int ((10 * a + b) * 3600 + (10 * c + d) * 60 + (10 * e + f))))"
proof -
  have c10: "c < 10" "e < 10" using assms by simp_all
  have t: "trim [digitChar a, digitChar b, CHR '':'', digitChar c, digitChar d,
                         CHR '':'', digitChar e, digitChar f]
           = [digitChar a, digitChar b, CHR '':'', digitChar c, digitChar d,
                         CHR '':'', digitChar e, digitChar f]"
    using trim_digit_ends [OF assms(1) assms(6), of "[digitChar b, CHR '':'', digitChar c, 
         digitChar d, CHR '':'', digitChar e]"]
    by simp
  show ?thesis
    unfolding parseTimeInput_def t
    using assms c10
    by (simp add: isDigit_digitChar parseInt10_two Let_def)
qed

lemma updateDisplay_text_short:
  assumes "0 \<le> s" "s < 3600"
  shows "updateDisplay_text s =
         [digitChar (nat (s div 60) div 10), digitChar (nat (s div 60) mod 10), CHR '':'',
          digitChar (nat (s mod 60) div 10), digitChar (nat (s mod 60) mod 10)]"
proof -
  have r: "js_rem s 3600 = s" "js_rem s 60 = s mod 60"
    using assms by (auto simp add: js_rem_def sgn_if)
  have h: "s div 3600 = 0" using assms by simp
  have m: "0 \<le> s div 60" "s div 60 < 100" using assms by auto
  have c: "0 \<le> s mod 60" "s mod 60 < 100" using assms by auto
  show ?thesis
    by (simp add: updateDisplay_text_def r h pad2_two_digits [OF m] pad2_two_digits [OF c])
qed

lemma updateDisplay_text_long:
  assumes "3600 \<le> s" "s < 360000"
  shows "updateDisplay_text s =
         [digitChar (nat (s div 3600) div 10), digitChar (nat (s div 3600) mod 10), CHR '':'',
          digitChar (nat (s mod 3600 div 60) div 10), digitChar (nat (s mod 3600 div 60) mod 10),
          CHR '':'',
          digitChar (nat (s mod 60) div 10), digitChar (nat (s mod 60) mod 10)]"
proof -
  have r: "js_rem s 3600 = s mod 3600" "js_rem s 60 = s mod 60"
    using assms by (auto simp add: js_rem_def sgn_if)
  have h: "0 < s div 3600" "0 \<le> s div 3600" "s div 3600 < 100" using assms by auto
  have m: "0 \<le> s mod 3600 div 60" "s mod 3600 div 60 < 100" using assms by auto
  have c: "0 \<le> s mod 60" "s mod 60 < 100" using assms by auto
  show ?thesis
    by (simp add: updateDisplay_text_def Let_def r h(1) pad2_two_digits [OF h(2,3)]
        pad2_two_digits [OF m] pad2_two_digits [OF c])
qed

section \<open>Formatting and parsing\<close>

lemma parse_updateDisplay_text:
  assumes "0 < s" "s < 100 * 3600"
  shows "parseTimeInput (updateDisplay_text s) = Inr s"
proof (cases "s < 3600")
  case True
  define m where "m = nat (s div 60)"
  define c where "c = nat (s mod 60)"
  have s: "s = int m * 60 + int c" using assms by (simp add: m_def c_def)
  have b: "m < 60" "c < 60" using True assms by (auto simp add: m_def c_def)
  have nz: "\<not> (m div 10 = 0 \<and> m mod 10 = 0 \<and> c div 10 = 0 \<and> c mod 10 = 0)"
  proof
    assume z: "m div 10 = 0 \<and> m mod 10 = 0 \<and> c div 10 = 0 \<and> c mod 10 = 0"
    have "m = 10 * (m div 10) + m mod 10" "c = 10 * (c div 10) + c mod 10" by simp_all
    with z have "m = 0" "c = 0" by simp_all
    with s assms show False by simp
  qed
  have d: "m div 10 < 10" "m mod 10 < 10" "c div 10 < 6" "c mod 10 < 10" using b by auto
  have "parseTimeInput (updateDisplay_text s) =
        Inr (int ((10 * (m div 10) + m mod 10) * 60 + (10 * (c div 10) + c mod 10)))"
    using assms True parse_MS_digits [OF d] nz
    by (simp add: updateDisplay_text_short m_def [symmetric] c_def [symmetric])
  then show ?thesis using s by simp
next
  case False
  define h where "h = nat (s div 3600)"
  define m where "m = nat (s mod 3600 div 60)"
  define c where "c = nat (s mod 60)"
  have nn: "0 \<le> s div 3600" "0 \<le> s mod 3600 div 60" "0 \<le> s mod 60"
    using assms by simp_all
  have e1: "s = (s div 3600) * 3600 + s mod 3600" by simp
  have e2: "s mod 3600 = (s mod 3600 div 60) * 60 + s mod 3600 mod 60" by simp
  have e3: "s mod 3600 mod 60 = s mod 60" by (simp add: mod_mod_cancel)
  have "s = (s div 3600) * 3600 + (s mod 3600 div 60) * 60 + s mod 60"
    using e1 e2 e3 by linarith
  then have s: "s = int h * 3600 + int m * 60 + int c"
    using nn by (simp add: h_def m_def c_def)
  have b: "h < 100" "m < 60" "c < 60" "0 < h" using False assms by (auto simp add: h_def m_def c_def)
  have nz: "\<not> (h div 10 = 0 \<and> h mod 10 = 0 \<and> m div 10 = 0 \<and> m mod 10 = 0 \<and> c div 10 = 0 \<and> c mod 10 = 0)"
    using b by auto
  have d: "h div 10 < 10" "h mod 10 < 10" "m div 10 < 6" "m mod 10 < 10" "c div 10 < 6" "c mod 10 < 10" using b by auto
  have "parseTimeInput (updateDisplay_text s) =
        Inr (int ((10 * (h div 10) + h mod 10) * 3600 + (10 * (m div 10) + m mod 10) * 60 + (10 * (c div 10) + c mod 10)))"
    using assms False parse_HMS_digits [OF d] nz
    by (simp add: updateDisplay_text_long h_def [symmetric] m_def [symmetric] c_def [symmetric])
  then show ?thesis using s by simp
qed

lemma length_updateDisplay_text:
  assumes "0 \<le> s" "s < 100 * 3600"
  shows "length (updateDisplay_text s) = (if s < 3600 then 5 else 8)"
proof (cases "s < 3600")
  case True
  then show ?thesis using assms by (simp add: updateDisplay_text_short)
next
  case False
  then show ?thesis using assms by (simp add: updateDisplay_text_long)
qed

lemma updateDisplay_text_fields:
  assumes "0 \<le> s"
  shows "updateDisplay_text s =
     (if s < 3600 then pad2 (s div 60) @ '':'' @ pad2 (s mod 60)
      else pad2 (s div 3600) @ '':'' @ pad2 (s mod 3600 div 60) @ '':'' @ pad2 (s mod 60))"
proof -
  have r: "js_rem s 3600 = s mod 3600" "js_rem s 60 = s mod 60"
    using assms by (auto simp add: js_rem_def sgn_if)
  have h: "s < 3600 \<longleftrightarrow> \<not> 0 < s div 3600" using assms by auto
  have m: "s < 3600 \<Longrightarrow> s mod 3600 = s" using assms by simp
  show ?thesis
    using m by (simp add: updateDisplay_text_def Let_def r h)
qed

lemma parse_updateDisplay_text_zero:
  "updateDisplay_text 0 = ''00:00'' \<and> parseTimeInput ''00:00'' = Inl ZeroDuration"
  using updateDisplay_text_short [of 0] parse_MS_digits [of 0 0 0 0]
  by (simp add: digitChar_def)

text \<open>
  Claim C1. For every integer \<open>s\<close> with \<open>0 < s < 100 * 3600\<close>, parsing the text that
  \<open>updateDisplay\<close> shows for \<open>s\<close> gives \<open>s\<close> back. The text has five characters
  (\<open>MM:SS\<close>) when \<open>s < 3600\<close> and eight (\<open>HH:MM:SS\<close>) otherwise, each field
  being the number padded with zeros to two digits. At \<open>s = 0\<close> the text is
  \<open>00:00\<close>, which the parser rejects as a zero duration.
\<close>

theorem parse_format_roundtrip:
  "(0 < s \<and> s < 100 * 3600 \<longrightarrow>
      parseTimeInput (updateDisplay_text s) = Inr s \<and>
      updateDisplay_text s =
        (if s < 3600 then pad2 (s div 60) @ '':'' @ pad2 (s mod 60)
         else pad2 (s div 3600) @ '':'' @ pad2 (s mod 3600 div 60) @ '':'' @ pad2 (s mod 60)) \<and>
      length (updateDisplay_text s) = (if s < 3600 then 5 else 8)) \<and>
   parseTimeInput (updateDisplay_text 0) = Inl ZeroDuration"
  using parse_updateDisplay_text [of s] length_updateDisplay_text [of s]
    updateDisplay_text_fields [of s] parse_updateDisplay_text_zero
  by simp

theorem parse_format_roundtrip_witness:
  "(0 < (5400::int) \<and> (5400::int) < 100 * 3600) \<and>
   updateDisplay_text 5400 = ''01:30:00'' \<and>
   parseTimeInput ''01:30:00'' = Inr 5400 \<and>
   updateDisplay_text 180 = ''03:00'' \<and>
   parseTimeInput ''03:00'' = Inr 180"
proof -
  have a: "updateDisplay_text 5400 = ''01:30:00''"
    by (simp add: updateDisplay_text_def js_rem_def pad2_def padStart_def toString_def
        digitsOf.simps digitChar_def)
  have b: "updateDisplay_text 180 = ''03:00''"
    by (simp add: updateDisplay_text_def js_rem_def pad2_def padStart_def toString_def
        digitsOf.simps digitChar_def)
  have h: "0 < (5400::int) \<and> (5400::int) < 100 * 3600" by simp
  have k: "0 < (180::int) \<and> (180::int) < 100 * 3600" by simp
  have c: "parseTimeInput (updateDisplay_text 5400) = Inr 5400"
    by (rule parse_format_roundtrip [of 5400, THEN conjunct1, THEN mp, OF h, THEN conjunct1])
  have d: "parseTimeInput (updateDisplay_text 180) = Inr 180"
    by (rule parse_format_roundtrip [of 180, THEN conjunct1, THEN mp, OF k, THEN conjunct1])
  show ?thesis
    using c d unfolding a b by simp
qed

section \<open>What the patterns capture\<close>

lemma digitVal_range: "isDigit c \<Longrightarrow> 0 \<le> digitVal c \<and> digitVal c \<le> 9"
  by (auto simp add: isDigit_def digitVal_def)

lemma parseInt10_one: "parseInt10 [a] = digitVal a"
  by (simp add: parseInt10_def)

lemma parseInt10_pair: "parseInt10 [a, b] = 10 * digitVal a + digitVal b"
  by (simp add: parseInt10_def)

lemma digit_pair_nonneg: "isDigit a \<Longrightarrow> isDigit b \<Longrightarrow> 0 \<le> 10 * digitVal a + digitVal b"
  using digitVal_range [of a] digitVal_range [of b] by simp

lemma match_HMS_groups:
  assumes "match_HMS t = Some (g1, g2, g3)"
  shows "0 \<le> parseInt10 g1 \<and> 0 \<le> parseInt10 g2 \<and> 0 \<le> parseInt10 g3 \<and> t \<noteq> []"
  using assms
  by (cases t rule: match_HMS.cases)
     (auto simp add: parseInt10_one parseInt10_pair digit_pair_nonneg digitVal_range
           split: if_splits)

lemma match_MS_groups:
  assumes "match_MS t = Some (g1, g2)"
  shows "0 \<le> parseInt10 g1 \<and> 0 \<le> parseInt10 g2 \<and> match_HMS t = None"
  using assms
  by (cases t rule: match_MS.cases)
     (auto simp add: parseInt10_one parseInt10_pair digit_pair_nonneg digitVal_range
           split: if_splits)

lemma digit_pair_upper: "isDigit a \<Longrightarrow> isDigit b \<Longrightarrow> 10 * digitVal a + digitVal b \<le> 99"
  using digitVal_range [of a] digitVal_range [of b] by simp

lemma digit_upper: "isDigit a \<Longrightarrow> digitVal a \<le> 99"
  using digitVal_range [of a] by simp

lemma match_HMS_upper:
  assumes "match_HMS t = Some (g1, g2, g3)"
  shows "parseInt10 g1 \<le> 99"
  using assms
  by (cases t rule: match_HMS.cases)
     (auto simp add: parseInt10_one parseInt10_pair digit_pair_upper digit_upper
           split: if_splits)

lemma match_MS_upper:
  assumes "match_MS t = Some (g1, g2)"
  shows "parseInt10 g1 \<le> 99"
  using assms
  by (cases t rule: match_MS.cases)
     (auto simp add: parseInt10_one parseInt10_pair digit_pair_upper digit_upper
           split: if_splits)

lemma parseTimeInput_range:
  assumes "parseTimeInput t = Inr n"
  shows "0 < n \<and> n < 100 * 3600"
proof (cases "match_HMS (trim t)")
  case None
  show ?thesis
  proof (cases "match_MS (trim t)")
    case n2: None
    then show ?thesis using assms None by (simp add: parseTimeInput_def)
  next
    case (Some g)
    obtain g1 g2 where g: "g = (g1, g2)" by (cases g)
    have u: "parseInt10 g1 \<le> 99" using Some g match_MS_upper by simp
    show ?thesis using assms None Some g u
      by (auto simp add: parseTimeInput_def Let_def split: if_splits)
  qed
next
  case (Some g)
  obtain g1 g2 g3 where g: "g = (g1, g2, g3)" by (cases g)
  have u: "parseInt10 g1 \<le> 99" using Some g match_HMS_upper by simp
  show ?thesis using assms Some g u
    by (auto simp add: parseTimeInput_def Let_def split: if_splits)
qed

lemma parseTimeInput_value_range:
  "parseTimeInput_value t = Some n \<Longrightarrow> 0 < n \<and> n < 100 * 3600"
  using parseTimeInput_range [of t n]
  by (simp add: parseTimeInput_value_def split: sum.splits)

text \<open>The two matchers are the two regular expressions of the source.\<close>

lemma length_one_or_two:
  "(length g = 1 \<or> length g = 2) \<longleftrightarrow> (\<exists>a. g = [a]) \<or> (\<exists>a b. g = [a, b])"
  by (cases g; cases "tl g"; cases "tl (tl g)") auto

lemma length_two: "length g = 2 \<longleftrightarrow> (\<exists>a b. g = [a, b])"
  by (cases g; cases "tl g"; cases "tl (tl g)") auto

lemma match_HMS_iff:
  "match_HMS t = Some (g1, g2, g3) \<longleftrightarrow>
     t = g1 @ '':'' @ g2 @ '':'' @ g3 \<and>
     (length g1 = 1 \<or> length g1 = 2) \<and> length g2 = 2 \<and> length g3 = 2 \<and>
     list_all isDigit g1 \<and> list_all isDigit g2 \<and> list_all isDigit g3"
proof
  assume "match_HMS t = Some (g1, g2, g3)"
  then show "t = g1 @ '':'' @ g2 @ '':'' @ g3 \<and>
     (length g1 = 1 \<or> length g1 = 2) \<and> length g2 = 2 \<and> length g3 = 2 \<and>
     list_all isDigit g1 \<and> list_all isDigit g2 \<and> list_all isDigit g3"
    by (cases t rule: match_HMS.cases) (auto split: if_splits)
next
  assume a: "t = g1 @ '':'' @ g2 @ '':'' @ g3 \<and>
     (length g1 = 1 \<or> length g1 = 2) \<and> length g2 = 2 \<and> length g3 = 2 \<and>
     list_all isDigit g1 \<and> list_all isDigit g2 \<and> list_all isDigit g3"
  then obtain c d e f where g: "g2 = [c, d]" "g3 = [e, f]"
    unfolding length_two by blast
  from a have "(\<exists>a. g1 = [a]) \<or> (\<exists>a b. g1 = [a, b])"
    unfolding length_one_or_two by blast
  then show "match_HMS t = Some (g1, g2, g3)"
    using a g by auto
qed

lemma match_MS_iff:
  "match_MS t = Some (g1, g2) \<longleftrightarrow>
     t = g1 @ '':'' @ g2 \<and>
     (length g1 = 1 \<or> length g1 = 2) \<and> length g2 = 2 \<and>
     list_all isDigit g1 \<and> list_all isDigit g2"
proof
  assume "match_MS t = Some (g1, g2)"
  then show "t = g1 @ '':'' @ g2 \<and>
     (length g1 = 1 \<or> length g1 = 2) \<and> length g2 = 2 \<and>
     list_all isDigit g1 \<and> list_all isDigit g2"
    by (cases t rule: match_MS.cases) (auto split: if_splits)
next
  assume a: "t = g1 @ '':'' @ g2 \<and>
     (length g1 = 1 \<or> length g1 = 2) \<and> length g2 = 2 \<and>
     list_all isDigit g1 \<and> list_all isDigit g2"
  then obtain c d where g: "g2 = [c, d]"
    unfolding length_two by blast
  from a have "(\<exists>a. g1 = [a]) \<or> (\<exists>a b. g1 = [a, b])"
    unfolding length_one_or_two by blast
  then show "match_MS t = Some (g1, g2)"
    using a g by auto
qed

lemmas eval_parse = parseTimeInput_def parseHHMMSS_def trim_def isWhiteSpace_def isDigit_def
  parseInt10_def digitVal_def

section \<open>Range checks of the parsers\<close>

text \<open>
  The text \<open>60:00\<close> has the minutes field 60, and \<open>parseTimeInput\<close> returns 3600 for it:
  the two-field branch checks the seconds field only.
\<close>

theorem parse_sixty_minutes_accepted:
  "match_MS (trim ''60:00'') = Some (''60'', ''00'') \<and> 60 \<le> parseInt10 ''60'' \<and>
   parseTimeInput ''60:00'' = Inr 3600 \<and> parseTimeInput ''60:00'' \<noteq> Inl OutOfRange"
  by (simp add: eval_parse)

text \<open>
  Claim C3, as the code has it. In the form \<open>H{1,2}:MM:SS\<close> a minutes or seconds field of
  60 or more makes \<open>parseTimeInput\<close> fail with \<open>OutOfRange\<close> (and \<open>parseHHMMSS\<close> return
  \<open>null\<close>). In the form \<open>M{1,2}:SS\<close> a seconds field of 60 or more fails with
  \<open>OutOfRange\<close>; the minutes field is not range checked there, and with seconds below 60
  a minutes field of 60 or more is accepted and gives \<open>minutes * 60 + seconds\<close>.
\<close>

theorem parse_out_of_range:
  "(match_HMS (trim input) = Some (g1, g2, g3) \<and> (60 \<le> parseInt10 g2 \<or> 60 \<le> parseInt10 g3) \<longrightarrow>
      parseTimeInput input = Inl OutOfRange \<and> parseHHMMSS input = None) \<and>
   (match_MS (trim input) = Some (m1, m2) \<and> 60 \<le> parseInt10 m2 \<longrightarrow>
      parseTimeInput input = Inl OutOfRange) \<and>
   (match_MS (trim input) = Some (m1, m2) \<and> parseInt10 m2 < 60 \<and> 60 \<le> parseInt10 m1 \<longrightarrow>
      parseTimeInput input = Inr (parseInt10 m1 * 60 + parseInt10 m2))"
proof -
  have a: "parseTimeInput input = Inl OutOfRange \<and> parseHHMMSS input = None"
    if "match_HMS (trim input) = Some (g1, g2, g3)" "60 \<le> parseInt10 g2 \<or> 60 \<le> parseInt10 g3"
    using that match_HMS_groups [OF that(1)]
    by (auto simp add: parseTimeInput_def parseHHMMSS_def Let_def)
  have b: "parseTimeInput input = Inl OutOfRange"
    if "match_MS (trim input) = Some (m1, m2)" "60 \<le> parseInt10 m2"
    using that match_MS_groups [OF that(1)]
    by (simp add: parseTimeInput_def Let_def)
  have c: "parseTimeInput input = Inr (parseInt10 m1 * 60 + parseInt10 m2)"
    if "match_MS (trim input) = Some (m1, m2)" "parseInt10 m2 < 60" "60 \<le> parseInt10 m1"
    using that match_MS_groups [OF that(1)]
    by (simp add: parseTimeInput_def Let_def)
  show ?thesis using a b c by blast
qed

theorem parse_out_of_range_witness:
  "match_HMS (trim ''01:60:00'') = Some (''01'', ''60'', ''00'') \<and> 60 \<le> parseInt10 ''60'' \<and>
   parseTimeInput ''01:60:00'' = Inl OutOfRange \<and> parseHHMMSS ''01:60:00'' = None \<and>
   match_MS (trim ''10:75'') = Some (''10'', ''75'') \<and> 60 \<le> parseInt10 ''75'' \<and>
   parseTimeInput ''10:75'' = Inl OutOfRange \<and>
   match_MS (trim ''90:30'') = Some (''90'', ''30'') \<and> parseInt10 ''30'' < 60 \<and>
   60 \<le> parseInt10 ''90'' \<and> parseTimeInput ''90:30'' = Inr 5430"
  using parse_out_of_range [of "''01:60:00''" "''01''" "''60''" "''00''" "''10''" "''75''"]
    parse_out_of_range [of "''10:75''" "''01''" "''60''" "''00''" "''10''" "''75''"]
    parse_out_of_range [of "''90:30''" "''01''" "''60''" "''00''" "''90''" "''30''"]
  by (simp add: trim_def isWhiteSpace_def isDigit_def parseInt10_def digitVal_def)

section \<open>Zero durations\<close>

lemma exitEditMode_failed_parse:
  "parseTimeInput input = Inl e \<Longrightarrow>
   exitEditMode True (Some input) s = s\<lparr> isEditMode := False \<rparr>"
  by (simp add: exitEditMode_def parseTimeInput_value_def)

text \<open>
  Claim C7. Whenever the fields captured from the input add up to 0 seconds, in either
  form, \<open>parseTimeInput\<close> fails with \<open>ZeroDuration\<close> (and \<open>parseHHMMSS\<close> returns
  \<open>null\<close>), and committing an edit with such an input leaves \<open>currentTime\<close>,
  \<open>totalTime\<close> and the mode as they were.
\<close>

theorem parse_zero_duration:
  "(match_HMS (trim input) = Some (g1, g2, g3) \<and>
      parseInt10 g1 * 3600 + parseInt10 g2 * 60 + parseInt10 g3 = 0 \<longrightarrow>
      parseTimeInput input = Inl ZeroDuration \<and> parseHHMMSS input = None) \<and>
   (match_MS (trim input) = Some (m1, m2) \<and> parseInt10 m1 * 60 + parseInt10 m2 = 0 \<longrightarrow>
      parseTimeInput input = Inl ZeroDuration) \<and>
   (parseTimeInput input = Inl ZeroDuration \<longrightarrow>
      currentTime (exitEditMode True (Some input) s) = currentTime s \<and>
      totalTime (exitEditMode True (Some input) s) = totalTime s \<and>
      mode (exitEditMode True (Some input) s) = mode s)"
proof -
  have a: "parseTimeInput input = Inl ZeroDuration \<and> parseHHMMSS input = None"
    if "match_HMS (trim input) = Some (g1, g2, g3)"
       "parseInt10 g1 * 3600 + parseInt10 g2 * 60 + parseInt10 g3 = 0"
  proof -
    have "parseInt10 g1 = 0 \<and> parseInt10 g2 = 0 \<and> parseInt10 g3 = 0"
      using that(2) match_HMS_groups [OF that(1)] by linarith
    then show ?thesis using that(1) match_HMS_groups [OF that(1)]
      by (simp add: parseTimeInput_def parseHHMMSS_def Let_def)
  qed
  have b: "parseTimeInput input = Inl ZeroDuration"
    if "match_MS (trim input) = Some (m1, m2)" "parseInt10 m1 * 60 + parseInt10 m2 = 0"
  proof -
    have "parseInt10 m1 = 0 \<and> parseInt10 m2 = 0"
      using that(2) match_MS_groups [OF that(1)] by linarith
    then show ?thesis using that(1) match_MS_groups [OF that(1)]
      by (simp add: parseTimeInput_def Let_def)
  qed
  have c: "currentTime (exitEditMode True (Some input) s) = currentTime s \<and>
      totalTime (exitEditMode True (Some input) s) = totalTime s \<and>
      mode (exitEditMode True (Some input) s) = mode s"
    if "parseTimeInput input = Inl ZeroDuration"
    using exitEditMode_failed_parse [OF that] by simp
  show ?thesis using a b c by blast
qed

theorem parse_zero_duration_witness:
  "match_HMS (trim ''00:00:00'') = Some (''00'', ''00'', ''00'') \<and>
   parseInt10 ''00'' * 3600 + parseInt10 ''00'' * 60 + parseInt10 ''00'' = 0 \<and>
   parseTimeInput ''00:00:00'' = Inl ZeroDuration \<and> parseHHMMSS ''00:00:00'' = None \<and>
   match_MS (trim ''00:00'') = Some (''00'', ''00'') \<and>
   parseTimeInput ''00:00'' = Inl ZeroDuration \<and>
   currentTime (exitEditMode True (Some ''00:00'') (enterEditMode state0)) = 180 \<and>
   totalTime (exitEditMode True (Some ''00:00'') (enterEditMode state0)) = 180"
  using parse_zero_duration [of "''00:00:00''" "''00''" "''00''" "''00''" "''00''" "''00''" state0]
    parse_zero_duration [of "''00:00''" "''00''" "''00''" "''00''" "''00''" "''00''" "enterEditMode state0"]
  by (simp add: trim_def isWhiteSpace_def isDigit_def parseInt10_def digitVal_def
      state0_def enterEditMode_def)

section \<open>The timer\<close>

lemmas timer_defs = pauseTimer_def stopTimer_def startTimer_def toggleTimer_def
  onTimerComplete_def completeTimeout_def intervalCallback_def tick_def resetTimer_def
  enterEditMode_def exitEditMode_def toggleMode_def setTime_def

lemma tick_inactive: "\<not> intervalActive s \<Longrightarrow> (tick ^^ n) s = s"
  by (induction n) (simp_all add: tick_def)

lemma three_ticks:
  assumes "mode s = COUNTDOWN" "currentTime s = 3" "totalTime s = 3"
    "intervalActive s = isRunning s"
  shows "tick (tick (tick (startTimer s))) =
         s\<lparr> isRunning := False, currentTime := 0, intervalActive := False,
            notifications := notifications s + 1, timerComplete := True \<rparr>"
    and "notifications (tick (tick (startTimer s))) = notifications s"
    and "isRunning (tick (tick (startTimer s)))"
  using assms by (auto simp add: timer_defs Let_def round64_small)

lemma interval_inv_step:
  "intervalActive (timer p) = isRunning (timer p) \<Longrightarrow>
   intervalActive (timer (apply_event e p)) = isRunning (timer (apply_event e p))"
  by (cases e) (auto simp add: timer_defs Let_def split: option.splits)

lemma interval_inv_run:
  "intervalActive (timer p) = isRunning (timer p) \<Longrightarrow>
   intervalActive (timer (run es p)) = isRunning (timer (run es p))"
  by (induction es arbitrary: p) (simp_all add: interval_inv_step)

text \<open>Every page the handlers reach has a live interval exactly when the timer runs.\<close>

lemma interval_inv_reachable:
  "intervalActive (timer (run es page0)) = isRunning (timer (run es page0))"
  by (rule interval_inv_run) (simp add: page0_def state0_def)

text \<open>
  Claim C2. From a countdown state with \<open>currentTime = totalTime = 3\<close>, starting the timer
  and letting the interval fire three times ends with \<open>currentTime = 0\<close>, the timer
  stopped and one more notification than before; after two ticks the timer still runs and
  has not notified, and no later tick notifies again.
\<close>

theorem countdown_three_ticks:
  assumes "mode s = COUNTDOWN" "currentTime s = 3" "totalTime s = 3"
    "intervalActive s = isRunning s"
  shows "let s2 = tick (tick (startTimer s)); s3 = tick s2 in
           isRunning s2 \<and> notifications s2 = notifications s \<and>
           currentTime s3 = 0 \<and> \<not> isRunning s3 \<and> \<not> intervalActive s3 \<and>
           notifications s3 = notifications s + 1 \<and>
           (\<forall>n. notifications ((tick ^^ n) s3) = notifications s + 1)"
proof -
  have "\<not> intervalActive (tick (tick (tick (startTimer s))))"
    using three_ticks(1) [OF assms] by simp
  then have "\<And>n. (tick ^^ n) (tick (tick (tick (startTimer s)))) = tick (tick (tick (startTimer s)))"
    by (rule tick_inactive)
  then show ?thesis
    using three_ticks [OF assms] by (simp add: Let_def)
qed

theorem countdown_three_ticks_witness:
  "mode (state0\<lparr>currentTime := 3, totalTime := 3\<rparr>) = COUNTDOWN \<and>
   currentTime (state0\<lparr>currentTime := 3, totalTime := 3\<rparr>) = 3 \<and>
   totalTime (state0\<lparr>currentTime := 3, totalTime := 3\<rparr>) = 3 \<and>
   intervalActive (state0\<lparr>currentTime := 3, totalTime := 3\<rparr>)
     = isRunning (state0\<lparr>currentTime := 3, totalTime := 3\<rparr>) \<and>
   currentTime (tick (tick (tick (startTimer (state0\<lparr>currentTime := 3, totalTime := 3\<rparr>))))) = 0 \<and>
   \<not> isRunning (tick (tick (tick (startTimer (state0\<lparr>currentTime := 3, totalTime := 3\<rparr>))))) \<and>
   notifications (tick (tick (tick (startTimer (state0\<lparr>currentTime := 3, totalTime := 3\<rparr>))))) = 1 \<and>
   notifications ((tick ^^ 5) (tick (tick (tick (startTimer (state0\<lparr>currentTime := 3, totalTime := 3\<rparr>)))))) = 1"
  using countdown_three_ticks [of "state0\<lparr>currentTime := 3, totalTime := 3\<rparr>"]
  by (simp add: state0_def Let_def)

text \<open>
  Claim C6. From any countdown state, \<open>toggleMode\<close> gives the stopwatch at 0 and keeps
  \<open>totalTime\<close>; a second \<open>toggleMode\<close> gives the countdown back with
  \<open>currentTime = totalTime\<close>, the target of before. After each of the two the timer is
  stopped and its interval cleared.
\<close>

theorem toggleMode_roundtrip:
  assumes "mode s = COUNTDOWN" "intervalActive s = isRunning s"
  shows "let s1 = toggleMode s; s2 = toggleMode s1 in
           mode s1 = STOPWATCH \<and> currentTime s1 = 0 \<and> totalTime s1 = totalTime s \<and>
           \<not> isRunning s1 \<and> \<not> intervalActive s1 \<and>
           mode s2 = COUNTDOWN \<and> currentTime s2 = totalTime s \<and> totalTime s2 = totalTime s \<and>
           \<not> isRunning s2 \<and> \<not> intervalActive s2"
  using assms by (simp add: timer_defs Let_def)

theorem toggleMode_roundtrip_witness:
  "mode (state0\<lparr>currentTime := 45, totalTime := 120, isRunning := True, intervalActive := True\<rparr>) = COUNTDOWN \<and>
   currentTime (toggleMode (state0\<lparr>currentTime := 45, totalTime := 120, isRunning := True, intervalActive := True\<rparr>)) = 0 \<and>
   mode (toggleMode (state0\<lparr>currentTime := 45, totalTime := 120, isRunning := True, intervalActive := True\<rparr>)) = STOPWATCH \<and>
   currentTime (toggleMode (toggleMode (state0\<lparr>currentTime := 45, totalTime := 120, isRunning := True, intervalActive := True\<rparr>))) = 120 \<and>
   totalTime (toggleMode (toggleMode (state0\<lparr>currentTime := 45, totalTime := 120, isRunning := True, intervalActive := True\<rparr>))) = 120"
  using toggleMode_roundtrip [of "state0\<lparr>currentTime := 45, totalTime := 120, isRunning := True, intervalActive := True\<rparr>"]
  by (simp add: state0_def Let_def)

text \<open>
  Claim C10. For every integer \<open>n\<close>, negative and zero included, \<open>setTime n\<close> stores \<open>n\<close>
  in \<open>currentTime\<close> and \<open>totalTime\<close>, leaves edit mode, keeps the mode, stops the timer
  and, in a state whose interval is live exactly when the timer runs, clears the interval.
\<close>

theorem setTime_unvalidated:
  "currentTime (setTime n s) = n \<and> totalTime (setTime n s) = n \<and>
   \<not> isRunning (setTime n s) \<and> \<not> isEditMode (setTime n s) \<and>
   mode (setTime n s) = mode s \<and>
   (intervalActive s = isRunning s \<longrightarrow> \<not> intervalActive (setTime n s))"
  by (simp add: timer_defs Let_def)

theorem setTime_unvalidated_witness:
  "intervalActive (startTimer state0) = isRunning (startTimer state0) \<and>
   currentTime (setTime (- 5) (startTimer state0)) = - 5 \<and>
   totalTime (setTime (- 5) (startTimer state0)) = - 5 \<and>
   \<not> intervalActive (setTime (- 5) (startTimer state0)) \<and>
   currentTime (setTime 0 (enterEditMode state0)) = 0 \<and>
   \<not> isEditMode (setTime 0 (enterEditMode state0))"
  using setTime_unvalidated [of "- 5" "startTimer state0"]
    setTime_unvalidated [of 0 "enterEditMode state0"]
  by (simp add: state0_def startTimer_def)

lemma countdown_tick:
  "mode u = COUNTDOWN \<Longrightarrow> intervalActive u \<Longrightarrow>
   currentTime (tick u) = max 0 (round64 (currentTime u - 1)) \<and>
   totalTime (tick u) = totalTime u \<and> mode (tick u) = COUNTDOWN"
  by (simp add: timer_defs Let_def)

lemma stopwatch_tick:
  "mode u = STOPWATCH \<Longrightarrow> intervalActive u \<Longrightarrow>
   tick u = u\<lparr> currentTime := round64 (currentTime u + 1) \<rparr>"
  by (simp add: tick_def intervalCallback_def)

lemma tick_keeps_times:
  assumes "times_wf s" "countdown_inv s"
  shows "times_wf (tick s) \<and> countdown_inv (tick s)"
proof (cases "intervalActive s")
  case False
  then show ?thesis using assms by (simp add: tick_def)
next
  case True
  show ?thesis
  proof (cases "mode s")
    case COUNTDOWN
    have b: "max 0 (round64 (currentTime s - 1)) \<le> totalTime s"
      using assms COUNTDOWN by (intro round64_pred_le) (simp_all add: times_wf_def countdown_inv_def)
    have z: "0 \<le> max 0 (round64 (currentTime s - 1))" by simp
    show ?thesis
      unfolding times_wf_def countdown_inv_def
      using assms b z countdown_tick [OF COUNTDOWN True]
      by (simp only: times_wf_def countdown_inv_def) simp
  next
    case STOPWATCH
    have "0 \<le> round64 (currentTime s + 1)"
      using assms by (intro round64_nonneg) (simp add: times_wf_def)
    then show ?thesis
      using assms STOPWATCH
      by (simp add: times_wf_def countdown_inv_def stopwatch_tick [OF STOPWATCH True])
  qed
qed

lemma commit_keeps_times:
  assumes "times_wf s" "countdown_inv s"
  shows "times_wf (exitEditMode save input s) \<and> countdown_inv (exitEditMode save input s)"
proof (cases "save \<and> (\<exists>t n. input = Some t \<and> parseTimeInput_value t = Some n)")
  case True
  then obtain t n where t: "save" "input = Some t" "parseTimeInput_value t = Some n" by blast
  have r: "0 < n \<and> n < 100 * 3600" using t(3) by (rule parseTimeInput_value_range)
  then have "round64 n = n" by (intro round64_small) simp
  then show ?thesis using t r
    by (simp add: exitEditMode_def times_wf_def countdown_inv_def)
next
  case False
  then have "exitEditMode save input s = s\<lparr> isEditMode := False \<rparr>"
    by (auto simp add: exitEditMode_def split: option.splits)
  then show ?thesis using assms by (simp add: times_wf_def countdown_inv_def)
qed

lemma countdown_inv_step:
  assumes "times_wf (timer p)" "countdown_inv (timer p)" "valid_arg e"
  shows "times_wf (timer (apply_event e p)) \<and> countdown_inv (timer (apply_event e p))"
proof (cases e)
  case Tick
  then show ?thesis using tick_keeps_times [OF assms(1,2)] by simp
next
  case (CommitEdit t)
  then show ?thesis using commit_keeps_times [OF assms(1,2)] assms by simp
next
  case CancelEdit
  then show ?thesis using commit_keeps_times [OF assms(1,2)] assms by simp
next
  case (SetTime n)
  then show ?thesis using assms by (simp add: times_wf_def countdown_inv_def timer_defs Let_def)
qed (use assms in \<open>auto simp add: times_wf_def countdown_inv_def timer_defs Let_def\<close>)

lemma countdown_inv_run:
  "times_wf (timer p) \<Longrightarrow> countdown_inv (timer p) \<Longrightarrow> list_all valid_arg es \<Longrightarrow>
   times_wf (timer (run es p)) \<and> countdown_inv (timer (run es p))"
  by (induction es arbitrary: p) (simp_all add: countdown_inv_step)

lemma stopwatch_ticks:
  "mode s = STOPWATCH \<Longrightarrow> intervalActive s \<Longrightarrow> - (2 ^ 53) \<le> currentTime s \<Longrightarrow>
   currentTime s + int n \<le> 2 ^ 53 \<Longrightarrow>
   mode ((tick ^^ n) s) = STOPWATCH \<and> intervalActive ((tick ^^ n) s) \<and>
   currentTime ((tick ^^ n) s) = currentTime s + int n"
proof (induction n)
  case 0
  then show ?case by simp
next
  case (Suc n)
  then have ih: "mode ((tick ^^ n) s) = STOPWATCH" "intervalActive ((tick ^^ n) s)"
    "currentTime ((tick ^^ n) s) = currentTime s + int n" by simp_all
  have "\<bar>currentTime s + int n + 1\<bar> \<le> 2 ^ 53" using Suc.prems by simp
  then have "round64 (currentTime s + int n + 1) = currentTime s + int n + 1"
    by (rule round64_small)
  then show ?case using ih by (simp add: stopwatch_tick)
qed

lemma stopwatch_tick_stalls:
  "mode s = STOPWATCH \<Longrightarrow> intervalActive s \<Longrightarrow> currentTime s = 2 ^ 53 \<Longrightarrow>
   currentTime (tick s) = 2 ^ 53"
  using round64_next by (simp add: stopwatch_tick)

lemma stopwatch_raise:
  assumes "0 \<le> currentTime (timer p)" "mode (timer p) = STOPWATCH"
    "mode (timer (apply_event e p)) = STOPWATCH"
    "currentTime (timer p) < currentTime (timer (apply_event e p))"
  shows "e = Tick \<or> (\<exists>n. e = SetTime n) \<or> (\<exists>t. e = CommitEdit t)"
  using assms
  by (cases e) (auto simp add: timer_defs Let_def split: if_splits)

text \<open>
  In stopwatch mode \<open>setTime 500\<close>, whose argument meets the precondition, raises
  \<open>currentTime\<close> from 0 to 500 without any tick.
\<close>

theorem setTime_raises_stopwatch:
  "mode (toggleMode state0) = STOPWATCH \<and> currentTime (toggleMode state0) = 0 \<and>
   mode (setTime 500 (toggleMode state0)) = STOPWATCH \<and>
   currentTime (setTime 500 (toggleMode state0)) = 500"
  by (simp add: state0_def timer_defs Let_def)

text \<open>
  Claim C5, as the code has it. As long as every \<open>setTime\<close> gets a binary64 number
  above 0, every page reached from the initial one satisfies, in countdown mode,
  \<open>0 \<le> currentTime \<le> totalTime\<close> (and in both modes the counts are not negative), and
  each single handler keeps this. A tick that brings a countdown to 0 leaves the timer
  stopped. In stopwatch mode no bound is applied: \<open>n\<close> ticks of a live interval add
  exactly \<open>n\<close> as long as the sum stays within \<open>2 ^ 53\<close>, where the binary64 increment
  stops changing the count. A tick is not the only handler that raises the count in
  stopwatch mode: \<open>setTime\<close> and a committed edit store their value there too, and no
  other handler raises it.
\<close>

theorem countdown_invariant:
  "(list_all valid_arg es \<longrightarrow>
      countdown_inv (timer (run es page0)) \<and> times_wf (timer (run es page0))) \<and>
   (countdown_inv (timer p) \<and> times_wf (timer p) \<and> valid_arg e \<longrightarrow>
      countdown_inv (timer (apply_event e p)) \<and> times_wf (timer (apply_event e p))) \<and>
   (mode s = COUNTDOWN \<and> intervalActive s \<and> currentTime (tick s) = 0 \<longrightarrow> \<not> isRunning (tick s)) \<and>
   (mode s = STOPWATCH \<and> intervalActive s \<and> - (2 ^ 53) \<le> currentTime s \<and>
      currentTime s + int n \<le> 2 ^ 53 \<longrightarrow> currentTime ((tick ^^ n) s) = currentTime s + int n) \<and>
   (mode s = STOPWATCH \<and> intervalActive s \<and> currentTime s = 2 ^ 53 \<longrightarrow>
      currentTime (tick s) = 2 ^ 53) \<and>
   (times_wf (timer p) \<and> mode (timer p) = STOPWATCH \<and> mode (timer (apply_event e p)) = STOPWATCH \<and>
      currentTime (timer p) < currentTime (timer (apply_event e p)) \<longrightarrow>
      e = Tick \<or> (\<exists>k. e = SetTime k) \<or> (\<exists>t. e = CommitEdit t))"
proof -
  have i: "times_wf (timer page0)" "countdown_inv (timer page0)"
    by (simp_all add: times_wf_def countdown_inv_def page0_def state0_def round64_small)
  have a: "list_all valid_arg es \<longrightarrow>
      countdown_inv (timer (run es page0)) \<and> times_wf (timer (run es page0))"
    using countdown_inv_run [OF i, of es] by simp
  have b: "countdown_inv (timer p) \<and> times_wf (timer p) \<and> valid_arg e \<longrightarrow>
      countdown_inv (timer (apply_event e p)) \<and> times_wf (timer (apply_event e p))"
    using countdown_inv_step [of p e] by simp
  have c: "mode s = COUNTDOWN \<and> intervalActive s \<and> currentTime (tick s) = 0 \<longrightarrow> \<not> isRunning (tick s)"
    by (auto simp add: timer_defs Let_def split: if_splits)
  have d: "mode s = STOPWATCH \<and> intervalActive s \<and> - (2 ^ 53) \<le> currentTime s \<and>
      currentTime s + int n \<le> 2 ^ 53 \<longrightarrow> currentTime ((tick ^^ n) s) = currentTime s + int n"
    using stopwatch_ticks [of s n] by simp
  have e: "mode s = STOPWATCH \<and> intervalActive s \<and> currentTime s = 2 ^ 53 \<longrightarrow>
      currentTime (tick s) = 2 ^ 53"
    using stopwatch_tick_stalls [of s] by simp
  have f: "times_wf (timer p) \<and> mode (timer p) = STOPWATCH \<and> mode (timer (apply_event e p)) = STOPWATCH \<and>
      currentTime (timer p) < currentTime (timer (apply_event e p)) \<longrightarrow>
      e = Tick \<or> (\<exists>k. e = SetTime k) \<or> (\<exists>t. e = CommitEdit t)"
    using stopwatch_raise [of p e] by (simp add: times_wf_def)
  show ?thesis using a b c d e f by (intro conjI)
qed

theorem countdown_invariant_witness:
  "list_all valid_arg [SetTime 2, Start, Tick, EnterEdit, CommitEdit ''01:00'', Start, Tick] \<and>
   mode (timer (run [SetTime 2, Start, Tick, EnterEdit, CommitEdit ''01:00'', Start, Tick] page0)) = COUNTDOWN \<and>
   currentTime (timer (run [SetTime 2, Start, Tick, EnterEdit, CommitEdit ''01:00'', Start, Tick] page0)) = 59 \<and>
   totalTime (timer (run [SetTime 2, Start, Tick, EnterEdit, CommitEdit ''01:00'', Start, Tick] page0)) = 60 \<and>
   countdown_inv (timer (run [SetTime 2, Start, Tick, EnterEdit, CommitEdit ''01:00'', Start, Tick] page0)) \<and>
   countdown_inv (timer (apply_event Reset \<lparr> timer = state0\<lparr>currentTime := 7\<rparr>, timeInputs = 0 \<rparr>)) \<and>
   \<not> isRunning (tick (state0\<lparr>currentTime := 1, isRunning := True, intervalActive := True\<rparr>)) \<and>
   currentTime ((tick ^^ 4) (state0\<lparr>mode := STOPWATCH, isRunning := True, intervalActive := True\<rparr>)) = 184 \<and>
   currentTime (tick (state0\<lparr>mode := STOPWATCH, currentTime := 2 ^ 53, isRunning := True, intervalActive := True\<rparr>)) = 2 ^ 53"
proof -
  let ?es = "[SetTime 2, Start, Tick, EnterEdit, CommitEdit ''01:00'', Start, Tick]"
  let ?p = "\<lparr> timer = state0\<lparr>currentTime := 7\<rparr>, timeInputs = 0 \<rparr>"
  let ?s1 = "state0\<lparr>currentTime := 1, isRunning := True, intervalActive := True\<rparr>"
  let ?s2 = "state0\<lparr>mode := STOPWATCH, isRunning := True, intervalActive := True\<rparr>"
  let ?s3 = "state0\<lparr>mode := STOPWATCH, currentTime := 2 ^ 53, isRunning := True, intervalActive := True\<rparr>"
  have a: "list_all valid_arg ?es" by (simp add: round64_small)
  have p: "parseTimeInput_value ''01:00'' = Some 60"
    by (simp add: parseTimeInput_value_def eval_parse)
  have r: "timer (run ?es page0) =
     state0\<lparr> isRunning := True, currentTime := 59, totalTime := 60, intervalActive := True \<rparr>"
    by (simp add: page0_def state0_def timer_defs Let_def p round64_small)
  have b: "countdown_inv (timer ?p) \<and> times_wf (timer ?p) \<and> valid_arg Reset"
    by (simp add: countdown_inv_def times_wf_def state0_def round64_small)
  have c: "mode ?s1 = COUNTDOWN \<and> intervalActive ?s1 \<and> currentTime (tick ?s1) = 0"
    by (simp add: state0_def timer_defs Let_def round64_small)
  have d: "mode ?s2 = STOPWATCH \<and> intervalActive ?s2 \<and> - (2 ^ 53) \<le> currentTime ?s2 \<and>
    currentTime ?s2 + int 4 \<le> 2 ^ 53 \<and> currentTime ?s2 = 180"
    by (simp add: state0_def)
  have e: "mode ?s3 = STOPWATCH \<and> intervalActive ?s3 \<and> currentTime ?s3 = 2 ^ 53"
    by (simp add: state0_def)
  have t1: "countdown_inv (timer (run ?es page0))"
    using a countdown_invariant [of ?es ?p Reset ?s1 0] by blast
  have t2: "countdown_inv (timer (apply_event Reset ?p))"
    using b countdown_invariant [of ?es ?p Reset ?s1 0] by blast
  have t3: "\<not> isRunning (tick ?s1)"
    using c countdown_invariant [of ?es ?p Reset ?s1 0] by blast
  have t4: "currentTime ((tick ^^ 4) ?s2) = currentTime ?s2 + int 4"
    using d countdown_invariant [of ?es ?p Reset ?s2 4] by blast
  have t5: "currentTime (tick ?s3) = 2 ^ 53"
    using e countdown_invariant [of ?es ?p Reset ?s3 0] by blast
  show ?thesis
    using a t1 t2 t3 t4 t5 d unfolding r by (simp add: state0_def)
qed

section \<open>The preset list\<close>










text \<open>
  With three presets, index 0 and the confirmation dialog declined, \<open>deletePreset\<close>
  removes nothing.
\<close>

theorem deletePreset_declined_keeps:
  "1 < length (presets_var \<lparr> presets_var = DEFAULT_PRESETS, store = None \<rparr>) \<and>
   deletePreset 0 False \<lparr> presets_var = DEFAULT_PRESETS, store = None \<rparr>
     = (Declined, \<lparr> presets_var = DEFAULT_PRESETS, store = None \<rparr>)"
  by (simp add: deletePreset_def DEFAULT_PRESETS_def)

text \<open>
  Claim C8, as the code has it. On a list of length 1 \<open>deletePreset\<close> fails with
  \<open>LastPresetError\<close> and changes nothing. On a longer list, at an index that holds an
  element, it removes that element when the user confirms: the list is one shorter, the
  elements before the index stay where they were, the ones after it move down by one, and
  the store is untouched. When the user declines, nothing changes.
\<close>

theorem deletePreset_spec:
  "(length (presets_var w) = 1 \<longrightarrow> deletePreset i c w = (LastPresetError, w)) \<and>
   (1 < length (presets_var w) \<and> 0 \<le> i \<and> i < int (length (presets_var w)) \<and> c \<longrightarrow>
      fst (deletePreset i c w) = Removed \<and>
      store (snd (deletePreset i c w)) = store w \<and>
      length (presets_var (snd (deletePreset i c w))) = length (presets_var w) - 1 \<and>
      (\<forall>j. j < nat i \<longrightarrow> presets_var (snd (deletePreset i c w)) ! j = presets_var w ! j) \<and>
      (\<forall>j. nat i \<le> j \<and> j + 1 < length (presets_var w) \<longrightarrow>
           presets_var (snd (deletePreset i c w)) ! j = presets_var w ! (j + 1))) \<and>
   (1 < length (presets_var w) \<and> 0 \<le> i \<and> i < int (length (presets_var w)) \<and> \<not> c \<longrightarrow>
      deletePreset i c w = (Declined, w))"
proof -
  have r: "fst (deletePreset i c w) = Removed \<and>
      store (snd (deletePreset i c w)) = store w \<and>
      length (presets_var (snd (deletePreset i c w))) = length (presets_var w) - 1 \<and>
      (\<forall>j. j < nat i \<longrightarrow> presets_var (snd (deletePreset i c w)) ! j = presets_var w ! j) \<and>
      (\<forall>j. nat i \<le> j \<and> j + 1 < length (presets_var w) \<longrightarrow>
           presets_var (snd (deletePreset i c w)) ! j = presets_var w ! (j + 1))"
    if h: "1 < length (presets_var w)" "0 \<le> i" "i < int (length (presets_var w))" "c"
  proof -
    let ?ps = "presets_var w"
    have n: "nat i < length ?ps" using h by simp
    have e: "deletePreset i c w =
       (Removed, w\<lparr> presets_var := take (nat i) ?ps @ drop (nat i + 1) ?ps \<rparr>)"
      using h by (simp add: deletePreset_def)
    have l: "length (take (nat i) ?ps @ drop (nat i + 1) ?ps) = length ?ps - 1"
      using n by simp
    have lo: "(take (nat i) ?ps @ drop (nat i + 1) ?ps) ! j = ?ps ! j" if "j < nat i" for j
      using that n by (simp add: nth_append)
    have hi: "(take (nat i) ?ps @ drop (nat i + 1) ?ps) ! j = ?ps ! (j + 1)"
      if "nat i \<le> j" "j + 1 < length ?ps" for j
      using that n by (simp add: nth_append min_def)
    show ?thesis using e l lo hi by simp
  qed
  show ?thesis using r by (auto simp add: deletePreset_def)
qed

theorem deletePreset_spec_witness:
  "length (presets_var \<lparr> presets_var = [\<lparr> seconds = 180, label = ''3 minutes'' \<rparr>], store = None \<rparr>) = 1 \<and>
   deletePreset 0 True \<lparr> presets_var = [\<lparr> seconds = 180, label = ''3 minutes'' \<rparr>], store = None \<rparr>
     = (LastPresetError, \<lparr> presets_var = [\<lparr> seconds = 180, label = ''3 minutes'' \<rparr>], store = None \<rparr>) \<and>
   1 < length (presets_var \<lparr> presets_var = DEFAULT_PRESETS, store = None \<rparr>) \<and>
   presets_var (snd (deletePreset 1 True \<lparr> presets_var = DEFAULT_PRESETS, store = None \<rparr>))
     = [\<lparr> seconds = 180, label = ''3 minutes'' \<rparr>, \<lparr> seconds = 1500, label = ''25 minutes (Pomodoro)'' \<rparr>]"
  using deletePreset_spec [of "\<lparr> presets_var = [\<lparr> seconds = 180, label = ''3 minutes'' \<rparr>], store = None \<rparr>" 0 True]
    deletePreset_spec [of "\<lparr> presets_var = DEFAULT_PRESETS, store = None \<rparr>" 1 True]
  by (simp add: deletePreset_def DEFAULT_PRESETS_def)

section \<open>The dynamic colour\<close>

lemmas lit_defs = lit_0_9_def lit_0_8_def lit_0_7_def lit_0_6_def lit_0_5_def lit_0_4_def
  lit_0_3_def lit_0_2_def lit_0_1_def

lemma lit_order:
  "0 < lit_0_1" "lit_0_1 < lit_0_2" "lit_0_2 < lit_0_3" "lit_0_3 < lit_0_4" "lit_0_4 < lit_0_5"
  "lit_0_5 < lit_0_6" "lit_0_6 < lit_0_7" "lit_0_7 < lit_0_8" "lit_0_8 < lit_0_9" "lit_0_9 < 1"
  by (simp_all add: lit_defs)

lemma distinct_band_gradients: "distinct band_gradients"
  by (simp add: band_gradients_def)

lemma band_iff:
  "dynamicColorFor p = band_gradients ! 0 \<longleftrightarrow> lit_0_9 < p"
  "dynamicColorFor p = band_gradients ! 1 \<longleftrightarrow> lit_0_8 < p \<and> p \<le> lit_0_9"
  "dynamicColorFor p = band_gradients ! 2 \<longleftrightarrow> lit_0_7 < p \<and> p \<le> lit_0_8"
  "dynamicColorFor p = band_gradients ! 3 \<longleftrightarrow> lit_0_6 < p \<and> p \<le> lit_0_7"
  "dynamicColorFor p = band_gradients ! 4 \<longleftrightarrow> lit_0_5 < p \<and> p \<le> lit_0_6"
  "dynamicColorFor p = band_gradients ! 5 \<longleftrightarrow> lit_0_4 < p \<and> p \<le> lit_0_5"
  "dynamicColorFor p = band_gradients ! 6 \<longleftrightarrow> lit_0_3 < p \<and> p \<le> lit_0_4"
  "dynamicColorFor p = band_gradients ! 7 \<longleftrightarrow> lit_0_2 < p \<and> p \<le> lit_0_3"
  "dynamicColorFor p = band_gradients ! 8 \<longleftrightarrow> lit_0_1 < p \<and> p \<le> lit_0_2"
  "dynamicColorFor p = band_gradients ! 9 \<longleftrightarrow> p \<le> lit_0_1"
  using lit_order by (auto simp add: dynamicColorFor_def band_gradients_def)

lemma band_samples:
  "dynamicColorFor lit_0_95 = band_gradients ! 0"
  "dynamicColorFor lit_0_85 = band_gradients ! 1"
  "dynamicColorFor 0 = band_gradients ! 9"
  "dynamicColorFor lit_0_05 = band_gradients ! 9"
  by (simp_all add: dynamicColorFor_def band_gradients_def lit_defs lit_0_95_def lit_0_85_def lit_0_05_def)

lemma band_image: "dynamicColorFor ` {p. 0 \<le> p \<and> p \<le> 1} = set band_gradients"
proof
  show "dynamicColorFor ` {p. 0 \<le> p \<and> p \<le> 1} \<subseteq> set band_gradients"
    by (auto simp add: dynamicColorFor_def band_gradients_def)
next
  let ?I = "{p::rat. 0 \<le> p \<and> p \<le> 1}"
  have m: "1 \<in> ?I" "lit_0_9 \<in> ?I" "lit_0_8 \<in> ?I" "lit_0_7 \<in> ?I" "lit_0_6 \<in> ?I" "lit_0_5 \<in> ?I"
    "lit_0_4 \<in> ?I" "lit_0_3 \<in> ?I" "lit_0_2 \<in> ?I" "lit_0_1 \<in> ?I"
    by (simp_all add: lit_defs)
  have e: "band_gradients =
    [dynamicColorFor 1, dynamicColorFor lit_0_9, dynamicColorFor lit_0_8, dynamicColorFor lit_0_7,
     dynamicColorFor lit_0_6, dynamicColorFor lit_0_5, dynamicColorFor lit_0_4,
     dynamicColorFor lit_0_3, dynamicColorFor lit_0_2, dynamicColorFor lit_0_1]"
    using lit_order by (simp add: dynamicColorFor_def band_gradients_def)
  show "set band_gradients \<subseteq> dynamicColorFor ` ?I"
    unfolding e using m by (simp del: One_nat_def)
qed

text \<open>
  Claim C9. There are ten gradients, all different, and on the progress values in
  \<open>[0, 1]\<close> the function takes exactly these ten. The first is chosen exactly above 0.9,
  the next eight exactly on \<open>(0.8, 0.9]\<close>, ..., \<open>(0.1, 0.2]\<close>, and the last exactly at or
  below 0.1 (each bound being the binary64 value of the literal). So 0.95 and 0.85 get
  different gradients, and 0.0 and 0.05 both get the last one.
\<close>

theorem dynamicColor_bands:
  "length band_gradients = 10 \<and> distinct band_gradients \<and>
   dynamicColorFor ` {p. 0 \<le> p \<and> p \<le> 1} = set band_gradients \<and>
   (dynamicColorFor p = band_gradients ! 0 \<longleftrightarrow> lit_0_9 < p) \<and>
   (dynamicColorFor p = band_gradients ! 1 \<longleftrightarrow> lit_0_8 < p \<and> p \<le> lit_0_9) \<and>
   (dynamicColorFor p = band_gradients ! 2 \<longleftrightarrow> lit_0_7 < p \<and> p \<le> lit_0_8) \<and>
   (dynamicColorFor p = band_gradients ! 3 \<longleftrightarrow> lit_0_6 < p \<and> p \<le> lit_0_7) \<and>
   (dynamicColorFor p = band_gradients ! 4 \<longleftrightarrow> lit_0_5 < p \<and> p \<le> lit_0_6) \<and>
   (dynamicColorFor p = band_gradients ! 5 \<longleftrightarrow> lit_0_4 < p \<and> p \<le> lit_0_5) \<and>
   (dynamicColorFor p = band_gradients ! 6 \<longleftrightarrow> lit_0_3 < p \<and> p \<le> lit_0_4) \<and>
   (dynamicColorFor p = band_gradients ! 7 \<longleftrightarrow> lit_0_2 < p \<and> p \<le> lit_0_3) \<and>
   (dynamicColorFor p = band_gradients ! 8 \<longleftrightarrow> lit_0_1 < p \<and> p \<le> lit_0_2) \<and>
   (dynamicColorFor p = band_gradients ! 9 \<longleftrightarrow> p \<le> lit_0_1) \<and>
   dynamicColorFor lit_0_95 \<noteq> dynamicColorFor lit_0_85 \<and>
   dynamicColorFor 0 = dynamicColorFor lit_0_05 \<and>
   dynamicColorFor lit_0_05 = band_gradients ! 9"
proof -
  have l: "length band_gradients = 10" by (simp add: band_gradients_def)
  have n: "band_gradients ! 0 \<noteq> band_gradients ! 1" by (simp add: band_gradients_def)
  show ?thesis
    using l n distinct_band_gradients band_image band_iff [of p] band_samples
    by (simp del: One_nat_def)
qed

theorem dynamicColor_bands_witness:
  "dynamicColorFor (1 / 2) = ''linear-gradient(90deg, #ea580c 0%, #fb923c 100%)'' \<and>
   updateDynamicColor (Some ''dynamic'') 1 = Some ''linear-gradient(90deg, #065f46 0%, #10b981 100%)''"
  using dynamicColor_bands [of "1 / 2"] dynamicColor_bands [of 1] lit_order
  by (simp add: band_gradients_def lit_0_5_def updateDynamicColor_def)

end
